theory Spec2Isabelle
  imports Complex_Main "HOL-Library.AList" "HOL-Library.Char_ord" "HOL-Library.List_Lexorder"
    "HOL-Library.Log_Nat"
begin

section \<open>The pipeline driver of Pipeline-GFS (pipeline.py)\<close>

text \<open>
  The driver runs three stages in sequence: the download script, the rendering script and
  the optional e-mail delivery. Everything the driver observes of its surroundings (the
  process environment, the clock, directory scans, file contents, the outcome of a
  subprocess or of an SMTP operation) is a field of the record \<open>world\<close>; everything it
  does to its surroundings is an \<open>event\<close> appended to a log. Each stage takes the log so far
  and returns the extended log together with either the exception that was raised
  (\<open>Inl\<close>) or its normal return (\<open>Inr\<close>).

  Timestamps are integers counting microseconds since the epoch, in UTC: this is the
  resolution of \<open>datetime\<close>. File names are strings of 8-bit characters. The
  directories the driver works on exist or can be created, as it requires of its caller.
  What \<open>stat\<close> and \<open>ZipFile.write\<close> find at a path, an exception included, is given by
  the world.
\<close>

subsection \<open>Strings\<close>

text \<open>\<open>str.lower\<close> on the letters A to Z; other characters are left as they are.\<close>

definition char_lower :: "char \<Rightarrow> char" where
  "char_lower c =
     (case map_of (zip ''ABCDEFGHIJKLMNOPQRSTUVWXYZ'' ''abcdefghijklmnopqrstuvwxyz'') c of
        None \<Rightarrow> c
      | Some l \<Rightarrow> l)"

definition lower :: "string \<Rightarrow> string" where
  "lower s = map char_lower s"

text \<open>\<open>sub in s\<close>: \<open>sub\<close> occurs in \<open>s\<close> as a contiguous run.\<close>

fun starts_with :: "string \<Rightarrow> string \<Rightarrow> bool" where
  "starts_with [] s = True"
| "starts_with (a # as) [] = False"
| "starts_with (a # as) (c # cs) = (a = c \<and> starts_with as cs)"

fun contains :: "string \<Rightarrow> string \<Rightarrow> bool" where
  "contains sub [] = (sub = [])"
| "contains sub (c # cs) = (starts_with sub (c # cs) \<or> contains sub cs)"

text \<open>\<open>sep.join(xs)\<close>\<close>

fun join :: "string \<Rightarrow> string list \<Rightarrow> string" where
  "join sep [] = []"
| "join sep [x] = x"
| "join sep (x # y # ys) = x @ sep @ join sep (y # ys)"

text \<open>The pattern \<open>*.png\<close> of \<open>Path.glob\<close>: the name ends in \<open>.png\<close>.\<close>

definition fnmatch_png :: "string \<Rightarrow> bool" where
  "fnmatch_png n = (4 \<le> length n \<and> drop (length n - 4) n = ''.png'')"

subsection \<open>Dictionaries\<close>

text \<open>
  A \<open>dict[str, str]\<close> is an association list with one pair per key; \<open>d[k] = v\<close> is
  \<open>AList.update k v d\<close>, which replaces the value in place or appends the new key.
  \<open>d.update(other)\<close> assigns the pairs of \<open>other\<close> in their order.
\<close>

type_synonym dict = "(string \<times> string) list"

definition dict_update :: "dict \<Rightarrow> dict \<Rightarrow> dict" where
  "dict_update d other = fold (\<lambda>(k, v). AList.update k v) other d"

subsection \<open>Durations in seconds\<close>

text \<open>
  \<open>timedelta.total_seconds()\<close> divides the whole number of microseconds by \<open>10**6\<close>, and
  \<open>int / int\<close> is the quotient rounded to the nearest double: 53 significant bits, ties to
  the even neighbour. \<open>exponent2 p q\<close> is the binary exponent of \<open>p / q\<close> for positive
  \<open>p\<close> and \<open>q\<close>. Durations between two \<open>datetime\<close> values are far from the smallest
  and the largest double, so there is no underflow and no overflow to model.
\<close>

definition round_half_even :: "rat \<Rightarrow> int" where
  "round_half_even y =
     (let f = \<lfloor>y\<rfloor>; r = y - of_int f
      in if r < 1 / 2 then f else if 1 / 2 < r then f + 1 else if even f then f else f + 1)"

definition exponent2 :: "int \<Rightarrow> int \<Rightarrow> int" where
  "exponent2 p q =
     (let k = bitlen p - bitlen q
      in if (2 :: rat) powi k \<le> of_int p / of_int q then k else k - 1)"

definition true_divide :: "int \<Rightarrow> int \<Rightarrow> rat" where
  "true_divide p q =
     (if p = 0 then 0
      else
        (let a = \<bar>p\<bar>;
             ulp = 2 powi (exponent2 a q - 52);
             m = round_half_even (of_int a / of_int q / ulp)
         in of_int (sgn p) * of_int m * ulp))"

definition total_seconds :: "int \<Rightarrow> rat" where
  "total_seconds us = true_divide us 1000000"

subsection \<open>Paths, events and the world\<close>

record path =
  parent :: string
  name :: string

datatype proc_result = Exited int | LaunchFailed

datatype error =
    ValueError
  | FileNotFoundError
  | CalledProcessError int
  | OSError
  | SMTPException

type_synonym zip_archive = "(string \<times> nat list) list"

datatype file_content = Regular_file "nat list" | Directory

record email_message =
  msg_from :: string
  msg_to :: string
  msg_subject :: string
  msg_content :: string
  attachment_filename :: string
  attachment :: zip_archive

datatype smtp_op =
    Connect string int
  | Login string string
  | Send_message email_message

datatype notice =
    Up_to_date
  | Download_finished
  | Creating_figures
  | Figures_produced
  | Sending nat string
  | Email_sent
  | Pipeline_finished

datatype event =
    Mkdir string
  | Run "string list" dict proc_result
  | Smtp smtp_op bool
  | Print notice

record world =
  environ :: dict
  sys_executable :: string
  utcnow :: int
  rglob_all :: "string \<Rightarrow> path list"
  st_mtime :: "path \<Rightarrow> error + int"
  listdir :: "string \<Rightarrow> string list"
  file_at :: "path \<Rightarrow> error + file_content"
  resolve :: "string \<Rightarrow> string"
  subprocess_result :: "event list \<Rightarrow> string list \<Rightarrow> dict \<Rightarrow> proc_result"
  smtp_result :: "event list \<Rightarrow> smtp_op \<Rightarrow> bool"

type_synonym outcome = "event list \<times> (error + unit)"

subsection \<open>Helpers: the freshness gate\<close>

definition is_grib :: "string \<Rightarrow> bool" where
  "is_grib n = (contains ''grb2'' (lower n) \<or> contains ''grib2'' (lower n))"

text \<open>
  \<open>p.stat().st_mtime\<close> for each matching path, in the order of the scan: \<open>st_mtime\<close>
  gives the modification time to the microsecond, as \<open>fromtimestamp\<close> reads it, or the
  exception that \<open>stat\<close> raises (a dangling symbolic link, a path that may not be read).
  The first exception ends the scan.
\<close>

fun stat_all :: "world \<Rightarrow> path list \<Rightarrow> error + int list" where
  "stat_all w [] = Inr []"
| "stat_all w (p # ps) =
     (case st_mtime w p of
        Inl e \<Rightarrow> Inl e
      | Inr m \<Rightarrow> (case stat_all w ps of Inl e \<Rightarrow> Inl e | Inr ms \<Rightarrow> Inr (m # ms)))"

text \<open>\<open>max(mtimes)\<close>; the source calls it on a non-empty list only.\<close>

fun maximum :: "int list \<Rightarrow> int" where
  "maximum [] = 0"
| "maximum [x] = x"
| "maximum (x # y # ys) = max x (maximum (y # ys))"

text \<open>
  \<open>datetime.fromtimestamp(t, tz=utc)\<close>: a \<open>datetime\<close> lies between the first microsecond
  of year 1 and the last of year 9999; a time outside raises (\<open>ValueError\<close>; far outside,
  \<open>OverflowError\<close> or \<open>OSError\<close>, which the model does not tell apart).
\<close>

definition fromtimestamp :: "int \<Rightarrow> error + int" where
  "fromtimestamp t =
     (if - 62135596800000000 \<le> t \<and> t \<le> 253402300799999999 then Inr t else Inl ValueError)"

definition latest_mtime :: "world \<Rightarrow> string \<Rightarrow> error + int option" where
  "latest_mtime w p =
     (case stat_all w (filter (\<lambda>q. is_grib (name q)) (rglob_all w p)) of
        Inl e \<Rightarrow> Inl e
      | Inr mtimes \<Rightarrow>
          if mtimes = [] then Inr None
          else (case fromtimestamp (maximum mtimes) of
                  Inl e \<Rightarrow> Inl e
                | Inr t \<Rightarrow> Inr (Some t)))"

definition utc_date :: "int \<Rightarrow> int" where
  "utc_date t = t div 86400000000"

text \<open>
  The comparison \<open>(now - latest).total_seconds() < max_age_hours * 3600\<close> is between a
  double and an integer; Python compares the two exactly.
\<close>

definition should_skip_download :: "world \<Rightarrow> string \<Rightarrow> int \<Rightarrow> error + bool" where
  "should_skip_download w data_dir max_age_hours =
     (case latest_mtime w data_dir of
        Inl e \<Rightarrow> Inl e
      | Inr None \<Rightarrow> Inr False
      | Inr (Some latest) \<Rightarrow>
          (let now = utcnow w;
               fresh_enough = (total_seconds (now - latest) < of_int (max_age_hours * 3600));
               same_day = (utc_date latest = utc_date now)
           in Inr (fresh_enough \<or> same_day)))"

subsection \<open>Subprocess wrappers\<close>

text \<open>
  \<open>subprocess.run(argv, check=True, env=env)\<close>: the call is logged with its outcome. A
  non-zero exit status raises \<open>CalledProcessError\<close>, a failure to launch raises
  \<open>OSError\<close>; after a successful call the wrapper prints its closing notice.
\<close>

definition run_error :: "proc_result \<Rightarrow> error option" where
  "run_error r =
     (case r of
        LaunchFailed \<Rightarrow> Some OSError
      | Exited rc \<Rightarrow> if rc = 0 then None else Some (CalledProcessError rc))"

definition subprocess_run :: "world \<Rightarrow> string list \<Rightarrow> dict \<Rightarrow> notice \<Rightarrow> event list \<Rightarrow> outcome" where
  "subprocess_run w argv env done_notice lg =
     (let r = subprocess_result w lg argv env
      in case run_error r of
           Some e \<Rightarrow> (lg @ [Run argv env r], Inl e)
         | None \<Rightarrow> (lg @ [Run argv env r, Print done_notice], Inr ()))"

text \<open>
  The environment of the download subprocess: a copy of the process environment, then
  \<open>DATA_DIR\<close>, then the caller's extra variables when there are any.
\<close>

definition download_env :: "world \<Rightarrow> string \<Rightarrow> dict option \<Rightarrow> dict" where
  "download_env w data_dir extra_env =
     (let env = environ w;
          env = AList.update ''DATA_DIR'' (resolve w data_dir) env
      in case extra_env of
           None \<Rightarrow> env
         | Some extra \<Rightarrow> if extra \<noteq> [] then dict_update env extra else env)"

definition run_gfs_download ::
  "world \<Rightarrow> string \<Rightarrow> string \<Rightarrow> string \<Rightarrow> dict option \<Rightarrow> int \<Rightarrow> bool \<Rightarrow> event list \<Rightarrow> outcome" where
  "run_gfs_download w data_dir python_executable gfs_script extra_env max_age_hours
       force_download lg =
     (let lg = lg @ [Mkdir data_dir];
          download = subprocess_run w [python_executable, gfs_script]
                       (download_env w data_dir extra_env) Download_finished lg
      in if force_download then download
         else (case should_skip_download w data_dir max_age_hours of
                 Inl e \<Rightarrow> (lg, Inl e)
               | Inr skip \<Rightarrow> if skip then (lg @ [Print Up_to_date], Inr ()) else download))"

text \<open>
  The environment of the render subprocess: \<open>INPUT_DIR\<close> and \<open>OUTPUT_DIR\<close> are set
  before the caller's extra variables are merged.
\<close>

definition plot_env :: "world \<Rightarrow> string \<Rightarrow> string \<Rightarrow> dict option \<Rightarrow> dict" where
  "plot_env w input_dir output_dir extra_env =
     (let env = environ w;
          env = AList.update ''INPUT_DIR'' (resolve w input_dir) env;
          env = AList.update ''OUTPUT_DIR'' (resolve w output_dir) env
      in case extra_env of
           None \<Rightarrow> env
         | Some extra \<Rightarrow> if extra \<noteq> [] then dict_update env extra else env)"

definition run_forecast_plot ::
  "world \<Rightarrow> string \<Rightarrow> string \<Rightarrow> string \<Rightarrow> string \<Rightarrow> dict option \<Rightarrow> event list \<Rightarrow> outcome" where
  "run_forecast_plot w input_dir output_dir python_executable forecast_script extra_env lg =
     (let lg = lg @ [Print Creating_figures, Mkdir output_dir]
      in subprocess_run w [python_executable, forecast_script]
           (plot_env w input_dir output_dir extra_env) Figures_produced lg)"

subsection \<open>The archive and the e-mail stage\<close>

text \<open>
  An archive is the list of its entries, each the entry name and the bytes stored under it.
  \<open>zf.write(path, arcname)\<close> stores a regular file under \<open>arcname\<close> with its bytes and a
  directory under \<open>arcname\<close> followed by a slash with no data (its contents are not
  added); it raises when the file cannot be read, when its modification time is outside what
  ZIP stores or when its name cannot be encoded. \<open>file_at\<close> says which of these it is.
\<close>

definition zf_write :: "world \<Rightarrow> path \<Rightarrow> string \<Rightarrow> error + (string \<times> nat list)" where
  "zf_write w p arcname =
     (case file_at w p of
        Inl e \<Rightarrow> Inl e
      | Inr Directory \<Rightarrow> Inr (arcname @ ''/'', [])
      | Inr (Regular_file bytes) \<Rightarrow> Inr (arcname, bytes))"

text \<open>\<open>zf.write(path, arcname=path.name)\<close> for each path; the first exception ends the loop.\<close>

fun zip_images :: "world \<Rightarrow> path list \<Rightarrow> error + zip_archive" where
  "zip_images w [] = Inr []"
| "zip_images w (p # ps) =
     (case zf_write w p (name p) of
        Inl e \<Rightarrow> Inl e
      | Inr entry \<Rightarrow>
          (case zip_images w ps of Inl e \<Rightarrow> Inl e | Inr entries \<Rightarrow> Inr (entry # entries)))"

text \<open>
  \<open>sorted(Path(image_dir).glob("*.png"))\<close>: the matching names of the directory, each
  joined to the directory; paths are ordered by their components.
\<close>

definition glob_png :: "world \<Rightarrow> string \<Rightarrow> path list" where
  "glob_png w image_dir =
     map (\<lambda>n. \<lparr>parent = image_dir, name = n\<rparr>) (filter fnmatch_png (listdir w image_dir))"

definition sorted_paths :: "path list \<Rightarrow> path list" where
  "sorted_paths ps = sort_key (\<lambda>p. [parent p, name p]) ps"

text \<open>Truth values of optional arguments: \<open>None\<close>, the empty string and the empty list are false.\<close>

definition truthy :: "'a list option \<Rightarrow> bool" where
  "truthy x = (case x of None \<Rightarrow> False | Some v \<Rightarrow> v \<noteq> [])"

text \<open>\<open>os.getenv(k)\<close>\<close>

definition getenv :: "world \<Rightarrow> string \<Rightarrow> string option" where
  "getenv w k = map_of (environ w) k"

text \<open>One operation on the SMTP connection; it is logged with its outcome.\<close>

definition smtp_do :: "world \<Rightarrow> smtp_op \<Rightarrow> event list \<Rightarrow> outcome" where
  "smtp_do w op lg =
     (let ok = smtp_result w lg op
      in (lg @ [Smtp op ok], if ok then Inr () else Inl SMTPException))"

definition smtp_session :: "world \<Rightarrow> string \<Rightarrow> int \<Rightarrow> string \<Rightarrow> string \<Rightarrow> email_message \<Rightarrow> event list \<Rightarrow> outcome" where
  "smtp_session w smtp_server port user pw msg lg =
     (case smtp_do w (Connect smtp_server port) lg of
        (lg, Inl e) \<Rightarrow> (lg, Inl e)
      | (lg, Inr _) \<Rightarrow>
          (case smtp_do w (Login user pw) lg of
             (lg, Inl e) \<Rightarrow> (lg, Inl e)
           | (lg, Inr _) \<Rightarrow>
               (case smtp_do w (Send_message msg) lg of
                  (lg, Inl e) \<Rightarrow> (lg, Inl e)
                | (lg, Inr _) \<Rightarrow> (lg @ [Print Email_sent], Inr ()))))"

definition send_images_via_email ::
  "world \<Rightarrow> string \<Rightarrow> string option \<Rightarrow> string list option \<Rightarrow> string \<Rightarrow> string \<Rightarrow> string \<Rightarrow> int
     \<Rightarrow> string option \<Rightarrow> string \<Rightarrow> event list \<Rightarrow> outcome" where
  "send_images_via_email w image_dir sender recipients subject body smtp_server port
       password zip_name lg =
     (if \<not> truthy sender \<or> \<not> truthy recipients then (lg, Inl ValueError)
      else
        (case (if truthy password then password else getenv w ''EMAIL_PASSWORD'') of
           None \<Rightarrow> (lg, Inl ValueError)
         | Some pw \<Rightarrow>
             (let png_paths = sorted_paths (glob_png w image_dir)
              in if png_paths = [] then (lg, Inl FileNotFoundError)
                 else
                   (let to = join '', '' (the recipients);
                        lg = lg @ [Print (Sending (length png_paths) to)]
                    in case zip_images w png_paths of
                         Inl e \<Rightarrow> (lg, Inl e)
                       | Inr zip_bytes \<Rightarrow>
                           (let msg = \<lparr>msg_from = the sender, msg_to = to,
                                       msg_subject = subject, msg_content = body,
                                       attachment_filename = zip_name,
                                       attachment = zip_bytes\<rparr>
                            in smtp_session w smtp_server port (the sender) pw msg lg)))))"

subsection \<open>The orchestrator\<close>

record args =
  data_dir :: string
  fig_dir :: string
  gfs_script :: string
  forecast_script :: string
  env :: "string list option"
  max_age_hours :: int
  force_download :: bool
  send_email :: bool
  sender :: "string option"
  recipients :: "string list option"
  subject :: string
  body :: string
  smtp_server :: string
  port :: int
  password :: "string option"
  zip_name :: string

text \<open>
  The loop over \<open>args.env\<close>: an entry without \<open>=\<close> raises, any other is split at its
  first \<open>=\<close> and assigned.
\<close>

fun parse_env :: "string list \<Rightarrow> dict \<Rightarrow> error + dict" where
  "parse_env [] extra_env = Inr extra_env"
| "parse_env (kv # kvs) extra_env =
     (if CHR ''='' \<notin> set kv then Inl ValueError
      else
        (let k = takeWhile (\<lambda>c. c \<noteq> CHR ''='') kv;
             v = tl (dropWhile (\<lambda>c. c \<noteq> CHR ''='') kv)
         in parse_env kvs (AList.update k v extra_env)))"

definition run_pipeline :: "world \<Rightarrow> args \<Rightarrow> event list \<Rightarrow> outcome" where
  "run_pipeline w a lg =
     (case (if truthy (env a) then parse_env (the (env a)) [] else Inr []) of
        Inl e \<Rightarrow> (lg, Inl e)
      | Inr extra_env \<Rightarrow>
          (case run_gfs_download w (data_dir a) (sys_executable w) (gfs_script a)
                  (Some extra_env) (max_age_hours a) (force_download a) lg of
             (lg, Inl e) \<Rightarrow> (lg, Inl e)
           | (lg, Inr _) \<Rightarrow>
               (case run_forecast_plot w (data_dir a) (fig_dir a) (sys_executable w)
                       (forecast_script a) (Some extra_env) lg of
                  (lg, Inl e) \<Rightarrow> (lg, Inl e)
                | (lg, Inr _) \<Rightarrow>
                    (case (if send_email a
                           then send_images_via_email w (fig_dir a) (sender a) (recipients a)
                                  (subject a) (body a) (smtp_server a) (port a) (password a)
                                  (zip_name a) lg
                           else (lg, Inr ())) of
                       (lg, Inl e) \<Rightarrow> (lg, Inl e)
                     | (lg, Inr _) \<Rightarrow> (lg @ [Print Pipeline_finished], Inr ())))))"

subsection \<open>Concrete worlds\<close>

text \<open>
  A world for concrete runs: the clock stands at 2023-11-15 23:00:00 UTC, the file
  \<open>notes.txt\<close> was modified 100 seconds before, every other file at 00:00:01 UTC of the
  same day, and \<open>stale.grib2\<close> is a symbolic link whose target is gone; \<open>d.png\<close> is
  a directory and every other path a regular file that reads as the four bytes of the PNG
  signature; subprocess outcomes are given by the argument vector and every SMTP operation
  succeeds.
\<close>

definition demo_world :: "dict \<Rightarrow> path list \<Rightarrow> string list \<Rightarrow> (string list \<Rightarrow> proc_result) \<Rightarrow> world" where
  "demo_world envir ps names outcome_of =
     \<lparr>environ = envir, sys_executable = ''python3'', utcnow = 1700089200000000,
      rglob_all = (\<lambda>d. ps),
      st_mtime = (\<lambda>p. if name p = ''stale.grib2'' then Inl FileNotFoundError
                      else if name p = ''notes.txt'' then Inr 1700089100000000
                      else Inr 1700006401000000),
      listdir = (\<lambda>d. names),
      file_at = (\<lambda>p. if name p = ''d.png'' then Inr Directory
                     else Inr (Regular_file [137, 80, 78, 71])),
      resolve = (\<lambda>d. ''/srv/'' @ d),
      subprocess_result = (\<lambda>lg argv e. outcome_of argv), smtp_result = (\<lambda>lg op. True)\<rparr>"

definition grib_file :: path where
  "grib_file = \<lparr>parent = ''DATA'', name = ''gfs.t00z.PGRB2.0p25.f000''\<rparr>"

definition notes_file :: path where
  "notes_file = \<lparr>parent = ''DATA'', name = ''notes.txt''\<rparr>"

definition stale_link :: path where
  "stale_link = \<lparr>parent = ''DATA'', name = ''stale.grib2''\<rparr>"

definition always_ok :: "string list \<Rightarrow> proc_result" where
  "always_ok argv = Exited 0"

definition download_fails :: "string list \<Rightarrow> proc_result" where
  "download_fails argv = (if argv = [''python3'', ''GFS.py''] then Exited 1 else Exited 0)"

definition render_fails :: "string list \<Rightarrow> proc_result" where
  "render_fails argv = (if argv = [''python3'', ''forecast.py''] then LaunchFailed else Exited 0)"



definition override_world :: world where
  "override_world = demo_world [(''HOME'', ''/root'')] [notes_file] [] always_ok"

definition override_env :: dict where
  "override_env = [(''DATA_DIR'', ''/elsewhere''), (''OUTPUT_DIR'', ''/tmp/figs'')]"

definition mail_world :: world where
  "mail_world =
     demo_world [(''HOME'', ''/root''), (''EMAIL_PASSWORD'', ''from-env'')] []
       [''b.png'', ''notes.txt'', ''a.png''] always_ok"

definition subdir_world :: world where
  "subdir_world =
     demo_world [(''HOME'', ''/root''), (''EMAIL_PASSWORD'', ''from-env'')] []
       [''d.png'', ''a.png''] always_ok"

definition bare_world :: world where
  "bare_world = demo_world [(''HOME'', ''/root'')] [] [''notes.txt''] always_ok"

definition failing_download_world :: world where
  "failing_download_world = demo_world [] [notes_file] [''a.png''] download_fails"

definition failing_render_world :: world where
  "failing_render_world = demo_world [] [notes_file] [''a.png''] render_fails"

definition demo_args :: "string list option \<Rightarrow> bool \<Rightarrow> args" where
  "demo_args envs mail =
     \<lparr>data_dir = ''DATA'', fig_dir = ''FIGS'', gfs_script = ''GFS.py'',
      forecast_script = ''forecast.py'', env = envs, max_age_hours = 6, force_download = False,
      send_email = mail, sender = Some ''me@example.org'',
      recipients = Some [''you@example.org'', ''ops@example.org''], subject = ''GFS Forecast'',
      body = ''Good morning'', smtp_server = ''smtp.example.org'', port = 465, password = None,
      zip_name = ''PVU_Figures.zip''\<rparr>"

subsection \<open>Failing subprocesses in a lg\<close>

text \<open>
  In a list of events with a result, every subprocess call that failed is the last event
  and its error is the result.
\<close>

definition failure_is_last :: "event list \<Rightarrow> error + unit \<Rightarrow> bool" where
  "failure_is_last evs res =
     (\<forall>i argv e r err. i < length evs \<and> evs ! i = Run argv e r \<and> run_error r = Some err \<longrightarrow>
        Suc i = length evs \<and> res = Inl err)"

section \<open>Properties\<close>

subsection \<open>Strings\<close>





subsection \<open>Rounding to a double\<close>









subsection \<open>The latest modification time\<close>


lemma latest_mtime_None:
  assumes "\<forall>p \<in> set (rglob_all w d). \<not> is_grib (name p)"
  shows "latest_mtime w d = Inr None"
proof -
  from assms have "filter (\<lambda>q. is_grib (name q)) (rglob_all w d) = []"
    by (simp add: filter_empty_conv)
  then show ?thesis by (simp add: latest_mtime_def)
qed



lemma grib_file_marked: "is_grib (name grib_file)" "\<not> is_grib (name notes_file)"
  "is_grib (name stale_link)"
  by (simp_all add: grib_file_def notes_file_def stale_link_def is_grib_def lower_def char_lower_def)

subsection \<open>The freshness gate\<close>




subsection \<open>Dictionaries and the merged environment\<close>

lemma map_of_dict_update:
  "map_of (dict_update d other) k =
     (case map_of (rev other) k of None \<Rightarrow> map_of d k | Some v \<Rightarrow> Some v)"
  unfolding dict_update_def
proof (induction other arbitrary: d)
  case Nil
  show ?case by simp
next
  case (Cons a other)
  obtain k' v' where a: "a = (k', v')" by (cases a)
  show ?case
    by (simp add: a Cons.IH update_conv' map_add_def split: option.splits)
qed

lemma map_of_rev_distinct:
  "distinct (map fst xs) \<Longrightarrow> map_of (rev xs) = map_of xs"
  by (rule map_of_inject_set [THEN iffD2]) (simp_all add: rev_map [symmetric])

lemma dict_update_overrides:
  assumes "distinct (map fst other)" and "(k, v) \<in> set other"
  shows "map_of (dict_update d other) k = Some v"
proof -
  from assms have "map_of other k = Some v" by simp
  with assms(1) show ?thesis by (simp add: map_of_dict_update map_of_rev_distinct)
qed

lemma dict_update_keeps:
  "k \<notin> fst ` set other \<Longrightarrow> map_of (dict_update d other) k = map_of d k"
proof -
  assume "k \<notin> fst ` set other"
  then have "map_of (rev other) k = None" by (simp add: map_of_eq_None_iff)
  then show ?thesis by (simp add: map_of_dict_update)
qed

lemma download_env_data_dir:
  assumes "extra = None \<or> (\<exists>ex. extra = Some ex \<and> ''DATA_DIR'' \<notin> fst ` set ex)"
  shows "map_of (download_env w d extra) ''DATA_DIR'' = Some (resolve w d)"
  using assms
  by (auto simp: download_env_def Let_def dict_update_keeps update_conv')

lemma download_env_inherits:
  assumes "k \<noteq> ''DATA_DIR''"
    and "extra = None \<or> (\<exists>ex. extra = Some ex \<and> k \<notin> fst ` set ex)"
  shows "map_of (download_env w d extra) k = map_of (environ w) k"
  using assms
  by (auto simp: download_env_def Let_def dict_update_keeps update_conv')

lemma run_gfs_download_runs:
  assumes "force \<or> should_skip_download w d h = Inr False"
  shows "\<exists>r rest res.
           run_gfs_download w d py script extra h force lg =
             (lg @ [Mkdir d, Run [py, script] (download_env w d extra) r] @ rest, res) \<and>
           r = subprocess_result w (lg @ [Mkdir d]) [py, script] (download_env w d extra) \<and>
           (\<forall>ev \<in> set rest. \<exists>n. ev = Print n) \<and> Print Up_to_date \<notin> set rest"
  using assms
  by (auto simp: run_gfs_download_def subprocess_run_def Let_def split: option.splits)

lemma run_forecast_plot_runs:
  "\<exists>r rest res.
     run_forecast_plot w i out py script extra lg =
       (lg @ [Print Creating_figures, Mkdir out, Run [py, script] (plot_env w i out extra) r] @ rest, res) \<and>
     (\<forall>ev \<in> set rest. \<exists>n. ev = Print n)"
  by (auto simp: run_forecast_plot_def subprocess_run_def Let_def split: option.splits)

subsection \<open>The download stage\<close>

text \<open>
  Claim C2. With the force flag set, \<open>run_gfs_download\<close> does not skip: after creating
  the directory it calls the download subprocess with the merged environment, whatever
  the directory holds and whatever the threshold is, and it never prints the notice that
  the files are up to date.
\<close>

theorem force_never_skips:
  assumes "force"
  shows "\<exists>r rest res.
           run_gfs_download w d py script extra h force lg =
             (lg @ [Mkdir d, Run [py, script] (download_env w d extra) r] @ rest, res) \<and>
           r = subprocess_result w (lg @ [Mkdir d]) [py, script] (download_env w d extra) \<and>
           Print Up_to_date \<notin> set rest"
  using assms
  by (auto simp: run_gfs_download_def subprocess_run_def Let_def split: option.splits)

theorem force_never_skips_witness:
  "should_skip_download (demo_world [] [grib_file] [] always_ok) ''DATA'' 6 = Inr True \<and>
   (\<exists>rest res.
      run_gfs_download (demo_world [] [grib_file] [] always_ok) ''DATA'' ''python3''
          ''GFS.py'' None 6 True [] =
        ([Mkdir ''DATA'', Run [''python3'', ''GFS.py''] [(''DATA_DIR'', ''/srv/DATA'')] (Exited 0)] @ rest, res))"
proof -
  let ?w = "demo_world [] [grib_file] [] always_ok"
  have skip: "should_skip_download ?w ''DATA'' 6 = Inr True"
    using grib_file_marked
    by (simp add: should_skip_download_def latest_mtime_def fromtimestamp_def demo_world_def
        grib_file_def utc_date_def)
  have e: "download_env ?w ''DATA'' None = [(''DATA_DIR'', ''/srv/DATA'')]"
    by (simp add: download_env_def demo_world_def)
  have r: "subprocess_result ?w ([] @ [Mkdir ''DATA'']) [''python3'', ''GFS.py'']
             (download_env ?w ''DATA'' None) = Exited 0"
    by (simp add: demo_world_def always_ok_def)
  from force_never_skips [of True ?w "''DATA''" "''python3''" "''GFS.py''" None 6 "[]"] e r skip
  show ?thesis by auto
qed

text \<open>
  Claim C9, as amended. When no scanned entry matches, the threshold is 6 hours and the
  force flag is off, the gate answers ``refresh needed'' and \<open>run_gfs_download\<close> calls the
  download subprocess with the merged environment. In it \<open>DATA_DIR\<close> is the resolved path
  of the data directory provided the caller's extra variables do not themselves contain
  \<open>DATA_DIR\<close>, and every other variable that the caller does not set is inherited from
  the process environment.
\<close>

theorem empty_directory_downloads:
  assumes "\<forall>p \<in> set (rglob_all w d). \<not> is_grib (name p)"
    and "extra = None \<or> (\<exists>ex. extra = Some ex \<and> ''DATA_DIR'' \<notin> fst ` set ex)"
  shows "should_skip_download w d 6 = Inr False \<and>
         (\<exists>r rest res.
            run_gfs_download w d py script extra 6 False lg =
              (lg @ [Mkdir d, Run [py, script] (download_env w d extra) r] @ rest, res)) \<and>
         map_of (download_env w d extra) ''DATA_DIR'' = Some (resolve w d) \<and>
         (\<forall>k. k \<noteq> ''DATA_DIR'' \<and> (\<forall>ex. extra = Some ex \<longrightarrow> k \<notin> fst ` set ex) \<longrightarrow>
              map_of (download_env w d extra) k = map_of (environ w) k)"
proof -
  from assms(1) have "latest_mtime w d = Inr None" by (rule latest_mtime_None)
  then have ns: "should_skip_download w d 6 = Inr False" by (simp add: should_skip_download_def)
  then have "False \<or> should_skip_download w d 6 = Inr False" by simp
  from run_gfs_download_runs [OF this, of py script extra lg]
  have run: "\<exists>r rest res.
            run_gfs_download w d py script extra 6 False lg =
              (lg @ [Mkdir d, Run [py, script] (download_env w d extra) r] @ rest, res)"
    by blast
  have inh: "\<forall>k. k \<noteq> ''DATA_DIR'' \<and> (\<forall>ex. extra = Some ex \<longrightarrow> k \<notin> fst ` set ex) \<longrightarrow>
              map_of (download_env w d extra) k = map_of (environ w) k"
  proof (intro allI impI)
    fix k assume k: "k \<noteq> ''DATA_DIR'' \<and> (\<forall>ex. extra = Some ex \<longrightarrow> k \<notin> fst ` set ex)"
    then have "extra = None \<or> (\<exists>ex. extra = Some ex \<and> k \<notin> fst ` set ex)" by (cases extra) auto
    with k show "map_of (download_env w d extra) k = map_of (environ w) k"
      by (simp add: download_env_inherits)
  qed
  from ns run download_env_data_dir [OF assms(2)] inh show ?thesis by blast
qed

theorem empty_directory_downloads_witness:
  "map name (rglob_all override_world ''DATA'') = [''notes.txt''] \<and>
   should_skip_download override_world ''DATA'' 6 = Inr False \<and>
   (\<exists>r rest res.
      run_gfs_download override_world ''DATA'' ''python3'' ''GFS.py'' (Some [(''TZ'', ''UTC'')]) 6 False [] =
        ([] @ [Mkdir ''DATA'', Run [''python3'', ''GFS.py'']
               (download_env override_world ''DATA'' (Some [(''TZ'', ''UTC'')])) r] @ rest, res)) \<and>
   map_of (download_env override_world ''DATA'' (Some [(''TZ'', ''UTC'')])) ''DATA_DIR'' = Some ''/srv/DATA'' \<and>
   map_of (download_env override_world ''DATA'' (Some [(''TZ'', ''UTC'')])) ''HOME'' = Some ''/root''"
proof -
  have "\<not> is_grib ''notes.txt''"
    by (simp add: is_grib_def lower_def char_lower_def)
  then have none: "\<forall>p \<in> set (rglob_all override_world ''DATA''). \<not> is_grib (name p)"
    by (simp add: override_world_def demo_world_def notes_file_def)
  have ex: "Some [(''TZ'', ''UTC'')] = None \<or>
      (\<exists>ex. Some [(''TZ'', ''UTC'')] = Some ex \<and> ''DATA_DIR'' \<notin> fst ` set ex)"
    by simp
  have r: "resolve override_world ''DATA'' = ''/srv/DATA''"
    and h: "map_of (environ override_world) ''HOME'' = Some ''/root''"
    by (simp_all add: override_world_def demo_world_def)
  have n: "map name (rglob_all override_world ''DATA'') = [''notes.txt'']"
    by (simp add: override_world_def demo_world_def notes_file_def)
  from empty_directory_downloads [OF none ex, of "''python3''" "''GFS.py''" "[]"] n r h
  show ?thesis by auto
qed

text \<open>
  As C9 is written, without the proviso, it fails: the caller's \<open>DATA_DIR\<close> replaces the
  resolved path.
\<close>

theorem empty_directory_downloads_counterexample:
  "latest_mtime override_world ''DATA'' = Inr None \<and>
   should_skip_download override_world ''DATA'' 6 = Inr False \<and>
   run_gfs_download override_world ''DATA'' ''python3'' ''GFS.py'' (Some override_env) 6 False [] =
     ([Mkdir ''DATA'',
       Run [''python3'', ''GFS.py'']
         [(''HOME'', ''/root''), (''DATA_DIR'', ''/elsewhere''), (''OUTPUT_DIR'', ''/tmp/figs'')]
         (Exited 0),
       Print Download_finished], Inr ()) \<and>
   resolve override_world ''DATA'' = ''/srv/DATA'' \<and>
   map_of [(''HOME'', ''/root''), (''DATA_DIR'', ''/elsewhere''), (''OUTPUT_DIR'', ''/tmp/figs'')]
      ''DATA_DIR'' \<noteq> Some (resolve override_world ''DATA'')"
  by (simp add: override_world_def override_env_def demo_world_def notes_file_def always_ok_def
      latest_mtime_def should_skip_download_def is_grib_def lower_def char_lower_def
      run_gfs_download_def subprocess_run_def run_error_def download_env_def dict_update_def)

text \<open>
  Claim C10. A variable of the caller's extra environment reaches the subprocess with the
  caller's value, also when it is one of the path variables the driver sets
  (\<open>DATA_DIR\<close> for the download stage, \<open>INPUT_DIR\<close> and \<open>OUTPUT_DIR\<close> for the render
  stage): the extra variables are merged after the driver has set its own. The download
  stage calls its subprocess unless it skips; the render stage always does.
\<close>

theorem extra_env_takes_precedence:
  assumes "distinct (map fst ex)" and "(k, v) \<in> set ex"
  shows "(force \<or> should_skip_download w d h = Inr False \<longrightarrow>
            (\<exists>e r rest res.
               run_gfs_download w d py script (Some ex) h force lg =
                 (lg @ [Mkdir d, Run [py, script] e r] @ rest, res) \<and>
               map_of e k = Some v \<and> (\<forall>ev \<in> set rest. \<exists>n. ev = Print n))) \<and>
         (\<exists>e r rest res.
            run_forecast_plot w d out py script' (Some ex) lg =
              (lg @ [Print Creating_figures, Mkdir out, Run [py, script'] e r] @ rest, res) \<and>
            map_of e k = Some v \<and> (\<forall>ev \<in> set rest. \<exists>n. ev = Print n))"
proof -
  from assms(2) have ne: "ex \<noteq> []" by auto
  have d: "map_of (download_env w d (Some ex)) k = Some v"
    using ne by (simp add: download_env_def Let_def dict_update_overrides [OF assms])
  have p: "map_of (plot_env w d out (Some ex)) k = Some v"
    using ne by (simp add: plot_env_def Let_def dict_update_overrides [OF assms])
  show ?thesis
  proof (intro conjI impI)
    assume "force \<or> should_skip_download w d h = Inr False"
    from run_gfs_download_runs [OF this, of py script "Some ex" lg] d
    show "\<exists>e r rest res.
               run_gfs_download w d py script (Some ex) h force lg =
                 (lg @ [Mkdir d, Run [py, script] e r] @ rest, res) \<and>
               map_of e k = Some v \<and> (\<forall>ev \<in> set rest. \<exists>n. ev = Print n)"
      by blast
  next
    from run_forecast_plot_runs [of w d out py script' "Some ex" lg] p
    show "\<exists>e r rest res.
            run_forecast_plot w d out py script' (Some ex) lg =
              (lg @ [Print Creating_figures, Mkdir out, Run [py, script'] e r] @ rest, res) \<and>
            map_of e k = Some v \<and> (\<forall>ev \<in> set rest. \<exists>n. ev = Print n)"
      by blast
  qed
qed

theorem extra_env_takes_precedence_witness:
  "distinct (map fst override_env) \<and> (''DATA_DIR'', ''/elsewhere'') \<in> set override_env \<and>
   (''OUTPUT_DIR'', ''/tmp/figs'') \<in> set override_env \<and>
   should_skip_download override_world ''DATA'' 6 = Inr False \<and>
   resolve override_world ''DATA'' \<noteq> ''/elsewhere'' \<and>
   resolve override_world ''FIGS'' \<noteq> ''/tmp/figs'' \<and>
   (\<exists>e r rest res.
      run_gfs_download override_world ''DATA'' ''python3'' ''GFS.py'' (Some override_env) 6 False [] =
        ([] @ [Mkdir ''DATA'', Run [''python3'', ''GFS.py''] e r] @ rest, res) \<and>
      map_of e ''DATA_DIR'' = Some ''/elsewhere'') \<and>
   (\<exists>e r rest res.
      run_forecast_plot override_world ''DATA'' ''FIGS'' ''python3'' ''forecast.py'' (Some override_env) [] =
        ([] @ [Print Creating_figures, Mkdir ''FIGS'', Run [''python3'', ''forecast.py''] e r] @ rest, res) \<and>
      map_of e ''OUTPUT_DIR'' = Some ''/tmp/figs'')"
proof -
  have dist: "distinct (map fst override_env)"
    and m1: "(''DATA_DIR'', ''/elsewhere'') \<in> set override_env"
    and m2: "(''OUTPUT_DIR'', ''/tmp/figs'') \<in> set override_env"
    by (simp_all add: override_env_def)
  have ns: "should_skip_download override_world ''DATA'' 6 = Inr False"
    by (simp add: override_world_def demo_world_def notes_file_def latest_mtime_def
        should_skip_download_def is_grib_def lower_def char_lower_def)
  have r: "resolve override_world ''DATA'' \<noteq> ''/elsewhere''"
      "resolve override_world ''FIGS'' \<noteq> ''/tmp/figs''"
    by (simp_all add: override_world_def demo_world_def)
  from extra_env_takes_precedence [OF dist m1, of False override_world "''DATA''" 6 "''python3''"
      "''GFS.py''" "[]" "''FIGS''" "''forecast.py''"] ns
  have a: "\<exists>e r rest res.
      run_gfs_download override_world ''DATA'' ''python3'' ''GFS.py'' (Some override_env) 6 False [] =
        ([] @ [Mkdir ''DATA'', Run [''python3'', ''GFS.py''] e r] @ rest, res) \<and>
      map_of e ''DATA_DIR'' = Some ''/elsewhere''"
    by blast
  from extra_env_takes_precedence [OF dist m2, of False override_world "''DATA''" 6 "''python3''"
      "''GFS.py''" "[]" "''FIGS''" "''forecast.py''"]
  have b: "\<exists>e r rest res.
      run_forecast_plot override_world ''DATA'' ''FIGS'' ''python3'' ''forecast.py'' (Some override_env) [] =
        ([] @ [Print Creating_figures, Mkdir ''FIGS'', Run [''python3'', ''forecast.py''] e r] @ rest, res) \<and>
      map_of e ''OUTPUT_DIR'' = Some ''/tmp/figs''"
    by blast
  from dist m1 m2 ns r a b show ?thesis by blast
qed

subsection \<open>The archive and the e-mail stage\<close>

lemma insort_key_paths:
  "insort_key (\<lambda>p. [parent p, name p]) \<lparr>parent = d, name = n\<rparr>
       (map (\<lambda>n. \<lparr>parent = d, name = n\<rparr>) xs) =
     map (\<lambda>n. \<lparr>parent = d, name = n\<rparr>) (insort n xs)"
  by (induction xs) auto

lemma sorted_paths_glob:
  "sorted_paths (map (\<lambda>n. \<lparr>parent = d, name = n\<rparr>) ns) =
     map (\<lambda>n. \<lparr>parent = d, name = n\<rparr>) (sort ns)"
  unfolding sorted_paths_def
  by (induction ns) (simp_all add: insort_key_paths)

lemma png_paths_eq:
  "sorted_paths (glob_png w d) =
     map (\<lambda>n. \<lparr>parent = d, name = n\<rparr>) (sort (filter fnmatch_png (listdir w d)))"
  by (simp add: glob_png_def sorted_paths_glob)

lemma png_paths_empty:
  "sorted_paths (glob_png w d) = [] \<longleftrightarrow> filter fnmatch_png (listdir w d) = []"
proof -
  have "length (sorted_paths (glob_png w d)) = length (filter fnmatch_png (listdir w d))"
    by (simp add: png_paths_eq)
  then show ?thesis by (metis length_0_conv)
qed

lemma zip_images_entries:
  "zip_images w ps = Inr archive \<Longrightarrow>
     list_all2 (\<lambda>p e. zf_write w p (name p) = Inr e) ps archive"
  by (induction ps arbitrary: archive) (auto split: sum.splits)

lemma zf_write_cases:
  assumes "zf_write w p a = Inr e"
  shows "file_at w p = Inr Directory \<and> e = (a @ ''/'', []) \<or>
         (\<exists>b. file_at w p = Inr (Regular_file b) \<and> e = (a, b))"
  using assms by (auto simp: zf_write_def split: sum.splits file_content.splits)

lemma png_archive_entries:
  assumes "zip_images w (sorted_paths (glob_png w d)) = Inr archive"
  shows "list_all2
           (\<lambda>n e. file_at w \<lparr>parent = d, name = n\<rparr> = Inr Directory \<and> e = (n @ ''/'', []) \<or>
                  (\<exists>b. file_at w \<lparr>parent = d, name = n\<rparr> = Inr (Regular_file b) \<and> e = (n, b)))
           (sort (filter fnmatch_png (listdir w d))) archive"
proof -
  from zip_images_entries [OF assms]
  have "list_all2 (\<lambda>p e. zf_write w p (name p) = Inr e)
          (map (\<lambda>n. \<lparr>parent = d, name = n\<rparr>) (sort (filter fnmatch_png (listdir w d)))) archive"
    by (simp add: png_paths_eq)
  then have "list_all2 (\<lambda>n e. zf_write w \<lparr>parent = d, name = n\<rparr> n = Inr e)
          (sort (filter fnmatch_png (listdir w d))) archive"
    by (simp add: list_all2_map1)
  then show ?thesis
    by (rule list_all2_mono) (auto dest: zf_write_cases)
qed

lemma png_archive_regular:
  assumes z: "zip_images w (sorted_paths (glob_png w d)) = Inr archive"
    and reg: "\<forall>n \<in> set (listdir w d). fnmatch_png n \<longrightarrow>
              (\<exists>b. file_at w \<lparr>parent = d, name = n\<rparr> = Inr (Regular_file b))"
  shows "map fst archive = sort (filter fnmatch_png (listdir w d))"
    and "\<forall>n c. (n, c) \<in> set archive \<longrightarrow>
           file_at w \<lparr>parent = d, name = n\<rparr> = Inr (Regular_file c)"
proof -
  let ?ns = "sort (filter fnmatch_png (listdir w d))"
  have R: "list_all2
      (\<lambda>n e. fst e = n \<and> file_at w \<lparr>parent = d, name = n\<rparr> = Inr (Regular_file (snd e)))
      ?ns archive"
    using png_archive_entries [OF z]
  proof (rule list.rel_mono_strong)
    fix n e
    assume "n \<in> set ?ns" and "e \<in> set archive"
      and c: "file_at w \<lparr>parent = d, name = n\<rparr> = Inr Directory \<and> e = (n @ ''/'', []) \<or>
              (\<exists>b. file_at w \<lparr>parent = d, name = n\<rparr> = Inr (Regular_file b) \<and> e = (n, b))"
    then have "n \<in> set (listdir w d)" "fnmatch_png n" by auto
    with reg obtain b where "file_at w \<lparr>parent = d, name = n\<rparr> = Inr (Regular_file b)" by blast
    with c show "fst e = n \<and> file_at w \<lparr>parent = d, name = n\<rparr> = Inr (Regular_file (snd e))"
      by auto
  qed
  show n: "map fst archive = ?ns"
  proof (rule nth_equalityI)
    from list_all2_lengthD [OF R] show "length (map fst archive) = length ?ns" by simp
    fix i assume "i < length (map fst archive)"
    then have "i < length archive" by simp
    from list_all2_nthD2 [OF R this] this show "map fst archive ! i = ?ns ! i" by simp
  qed
  show "\<forall>n c. (n, c) \<in> set archive \<longrightarrow>
           file_at w \<lparr>parent = d, name = n\<rparr> = Inr (Regular_file c)"
  proof (intro allI impI)
    fix n c assume "(n, c) \<in> set archive"
    then obtain i where i: "i < length archive" "archive ! i = (n, c)"
      by (auto simp: in_set_conv_nth)
    from list_all2_nthD2 [OF R i(1)] i(2)
    show "file_at w \<lparr>parent = d, name = n\<rparr> = Inr (Regular_file c)" by simp
  qed
qed

lemma smtp_session_events:
  assumes "smtp_session w srv prt u pw msg lg = (lg', res)"
  shows "\<exists>evs. lg' = lg @ evs \<and>
           (\<forall>ev \<in> set evs. ev = Print Email_sent \<or>
              (\<exists>ok. ev = Smtp (Connect srv prt) ok \<or> ev = Smtp (Login u pw) ok \<or>
                     ev = Smtp (Send_message msg) ok))"
  using assms
  by (auto simp: smtp_session_def smtp_do_def Let_def split: if_splits)

lemma send_config_error:
  assumes "\<not> truthy sndr \<or> \<not> truthy rcpts \<or> (\<not> truthy pwd \<and> getenv w ''EMAIL_PASSWORD'' = None)"
  shows "send_images_via_email w d sndr rcpts subj bdy srv prt pwd zn lg = (lg, Inl ValueError)"
  using assms by (auto simp: send_images_via_email_def split: option.splits)

lemma send_no_png:
  assumes "truthy sndr" and "truthy rcpts" and "truthy pwd \<or> getenv w ''EMAIL_PASSWORD'' \<noteq> None"
    and "filter fnmatch_png (listdir w d) = []"
  shows "send_images_via_email w d sndr rcpts subj bdy srv prt pwd zn lg = (lg, Inl FileNotFoundError)"
  using assms
  by (auto simp: send_images_via_email_def png_paths_empty truthy_def split: option.splits)

lemma send_zip_fails:
  assumes "truthy sndr" and "truthy rcpts"
    and "(if truthy pwd then pwd else getenv w ''EMAIL_PASSWORD'') = Some pw"
    and "filter fnmatch_png (listdir w d) \<noteq> []"
    and "zip_images w (sorted_paths (glob_png w d)) = Inl e"
  shows "send_images_via_email w d sndr rcpts subj bdy srv prt pwd zn lg =
           (lg @ [Print (Sending (length (sorted_paths (glob_png w d))) (join '', '' (the rcpts)))],
            Inl e)"
  using assms
  by (simp add: send_images_via_email_def png_paths_empty Let_def)

lemma send_proceeds:
  assumes "truthy sndr" and "truthy rcpts"
    and "(if truthy pwd then pwd else getenv w ''EMAIL_PASSWORD'') = Some pw"
    and "filter fnmatch_png (listdir w d) \<noteq> []"
    and "zip_images w (sorted_paths (glob_png w d)) = Inr archive"
  shows "send_images_via_email w d sndr rcpts subj bdy srv prt pwd zn lg =
           smtp_session w srv prt (the sndr) pw
             \<lparr>msg_from = the sndr, msg_to = join '', '' (the rcpts), msg_subject = subj,
              msg_content = bdy, attachment_filename = zn, attachment = archive\<rparr>
             (lg @ [Print (Sending (length (sorted_paths (glob_png w d))) (join '', '' (the rcpts)))])"
  using assms
  by (simp add: send_images_via_email_def png_paths_empty Let_def)

lemma send_events:
  assumes "send_images_via_email w d sndr rcpts subj bdy srv prt pwd zn lg = (lg @ evs, res)"
    and "ev \<in> set evs"
  shows "\<exists>pw. (if truthy pwd then pwd else getenv w ''EMAIL_PASSWORD'') = Some pw \<and> truthy sndr \<and>
           (ev = Print (Sending (length (sorted_paths (glob_png w d))) (join '', '' (the rcpts))) \<or>
            (\<exists>archive. zip_images w (sorted_paths (glob_png w d)) = Inr archive \<and>
               (ev = Print Email_sent \<or>
                (\<exists>ok. ev = Smtp (Connect srv prt) ok \<or> ev = Smtp (Login (the sndr) pw) ok \<or>
                   ev = Smtp (Send_message
                     \<lparr>msg_from = the sndr, msg_to = join '', '' (the rcpts), msg_subject = subj,
                      msg_content = bdy, attachment_filename = zn,
                      attachment = archive\<rparr>) ok))))"
proof (cases "truthy sndr \<and> truthy rcpts \<and>
    (if truthy pwd then pwd else getenv w ''EMAIL_PASSWORD'') \<noteq> None \<and>
    filter fnmatch_png (listdir w d) \<noteq> []")
  case False
  then have "fst (send_images_via_email w d sndr rcpts subj bdy srv prt pwd zn lg) = lg"
    by (auto simp: send_images_via_email_def png_paths_empty split: option.splits)
  with assms show ?thesis by simp
next
  case True
  then obtain pw where pw: "(if truthy pwd then pwd else getenv w ''EMAIL_PASSWORD'') = Some pw"
    by blast
  let ?p = "Print (Sending (length (sorted_paths (glob_png w d))) (join '', '' (the rcpts)))"
  show ?thesis
  proof (cases "zip_images w (sorted_paths (glob_png w d))")
    case (Inl e)
    from True pw Inl assms(1)
      send_zip_fails [of sndr rcpts pwd w pw d e subj bdy srv prt zn lg]
    have "evs = [?p]" by simp
    with assms(2) pw True show ?thesis by auto
  next
    case (Inr archive)
    let ?m = "\<lparr>msg_from = the sndr, msg_to = join '', '' (the rcpts), msg_subject = subj,
              msg_content = bdy, attachment_filename = zn, attachment = archive\<rparr>"
    from True pw Inr assms(1)
      send_proceeds [of sndr rcpts pwd w pw d archive subj bdy srv prt zn lg]
    have "smtp_session w srv prt (the sndr) pw ?m (lg @ [?p]) = (lg @ evs, res)" by simp
    from smtp_session_events [OF this] obtain evs' where
      e: "lg @ evs = (lg @ [?p]) @ evs'" and
      a: "\<forall>ev \<in> set evs'. ev = Print Email_sent \<or>
              (\<exists>ok. ev = Smtp (Connect srv prt) ok \<or> ev = Smtp (Login (the sndr) pw) ok \<or>
                     ev = Smtp (Send_message ?m) ok)"
      by blast
    from e have "evs = ?p # evs'" by simp
    with assms(2) a pw True Inr show ?thesis by auto
  qed
qed

lemma mail_world_run:
  "send_images_via_email mail_world ''FIGS'' (Some ''me@example.org'')
       (Some [''you@example.org'', ''ops@example.org''])
       ''GFS Forecast'' ''Good morning'' ''smtp.example.org'' 465 pwd ''PVU_Figures.zip'' [] =
     ([] @
      [Print (Sending 2 ''you@example.org, ops@example.org''),
       Smtp (Connect ''smtp.example.org'' 465) True,
       Smtp (Login ''me@example.org'' (if truthy pwd then the pwd else ''from-env'')) True,
       Smtp (Send_message
          \<lparr>msg_from = ''me@example.org'', msg_to = ''you@example.org, ops@example.org'',
           msg_subject = ''GFS Forecast'', msg_content = ''Good morning'',
           attachment_filename = ''PVU_Figures.zip'',
           attachment = [(''a.png'', [137, 80, 78, 71]), (''b.png'', [137, 80, 78, 71])]\<rparr>) True,
       Print Email_sent], Inr ())"
  by (cases pwd)
     (simp_all add: mail_world_def demo_world_def always_ok_def send_images_via_email_def truthy_def
      getenv_def glob_png_def sorted_paths_def fnmatch_png_def zf_write_def smtp_session_def
      smtp_do_def Let_def)

text \<open>
  Claim C5. \<open>send_images_via_email\<close> raises \<open>ValueError\<close> and logs nothing (no print,
  no SMTP connection) whenever the sender is \<open>None\<close> or empty, the recipients are
  \<open>None\<close> or the empty list, or the password argument is \<open>None\<close> or empty while
  \<open>EMAIL_PASSWORD\<close> is not set in the environment.
\<close>

theorem missing_mail_settings_raise:
  assumes "sndr = None \<or> sndr = Some [] \<or> rcpts = None \<or> rcpts = Some [] \<or>
           ((pwd = None \<or> pwd = Some []) \<and> getenv w ''EMAIL_PASSWORD'' = None)"
  shows "send_images_via_email w d sndr rcpts subj bdy srv prt pwd zn lg = (lg, Inl ValueError)"
proof -
  from assms
  have "\<not> truthy sndr \<or> \<not> truthy rcpts \<or> (\<not> truthy pwd \<and> getenv w ''EMAIL_PASSWORD'' = None)"
    by (auto simp: truthy_def)
  then show ?thesis by (rule send_config_error)
qed

theorem missing_mail_settings_raise_witness:
  "getenv bare_world ''EMAIL_PASSWORD'' = None \<and>
   send_images_via_email bare_world ''FIGS'' (Some ''me@example.org'') (Some [''you@example.org''])
       ''GFS Forecast'' ''Good morning'' ''smtp.example.org'' 465 None ''PVU_Figures.zip'' [] =
     ([], Inl ValueError) \<and>
   send_images_via_email mail_world ''FIGS'' (Some ''me@example.org'') (Some [])
       ''GFS Forecast'' ''Good morning'' ''smtp.example.org'' 465 (Some ''pw'') ''PVU_Figures.zip'' [] =
     ([], Inl ValueError) \<and>
   send_images_via_email mail_world ''FIGS'' None (Some [''you@example.org''])
       ''GFS Forecast'' ''Good morning'' ''smtp.example.org'' 465 (Some ''pw'') ''PVU_Figures.zip'' [] =
     ([], Inl ValueError)"
proof -
  have g: "getenv bare_world ''EMAIL_PASSWORD'' = None"
    by (simp add: getenv_def bare_world_def demo_world_def)
  from g have a: "Some ''me@example.org'' = None \<or> Some ''me@example.org'' = Some [] \<or>
      Some [''you@example.org''] = None \<or> Some [''you@example.org''] = Some [] \<or>
      ((None = None \<or> None = Some []) \<and> getenv bare_world ''EMAIL_PASSWORD'' = None)"
    by simp
  show ?thesis
    using g missing_mail_settings_raise [OF a]
      missing_mail_settings_raise [of "Some ''me@example.org''" "Some []" "Some ''pw''" mail_world]
      missing_mail_settings_raise [of None "Some [''you@example.org'']" "Some ''pw''" mail_world]
    by simp
qed

text \<open>
  Claim C6, as amended. When no name in the image directory matches \<open>*.png\<close>,
  \<open>send_images_via_email\<close> fails and logs nothing: the announcement that precedes the
  building of the archive is not printed and no SMTP operation is attempted. The exception
  is \<open>FileNotFoundError\<close> when sender, recipients and a credential are present, and the
  \<open>ValueError\<close> of the earlier checks otherwise.
\<close>

theorem no_png_raises:
  assumes "filter fnmatch_png (listdir w d) = []"
  shows "send_images_via_email w d sndr rcpts subj bdy srv prt pwd zn lg =
           (lg, Inl (if truthy sndr \<and> truthy rcpts \<and>
                         (truthy pwd \<or> getenv w ''EMAIL_PASSWORD'' \<noteq> None)
                      then FileNotFoundError else ValueError))"
proof (cases "truthy sndr \<and> truthy rcpts \<and> (truthy pwd \<or> getenv w ''EMAIL_PASSWORD'' \<noteq> None)")
  case True
  with assms show ?thesis by (simp add: send_no_png)
next
  case False
  then have "\<not> truthy sndr \<or> \<not> truthy rcpts \<or> (\<not> truthy pwd \<and> getenv w ''EMAIL_PASSWORD'' = None)"
    by blast
  from send_config_error [OF this] False show ?thesis by simp
qed

theorem no_png_raises_witness:
  "filter fnmatch_png (listdir bare_world ''FIGS'') = [] \<and>
   send_images_via_email bare_world ''FIGS'' (Some ''me@example.org'') (Some [''you@example.org''])
       ''GFS Forecast'' ''Good morning'' ''smtp.example.org'' 465 (Some ''pw'') ''PVU_Figures.zip'' [] =
     ([], Inl FileNotFoundError)"
proof -
  have e: "filter fnmatch_png (listdir bare_world ''FIGS'') = []"
    by (simp add: bare_world_def demo_world_def fnmatch_png_def)
  have t: "truthy (Some ''me@example.org'')" "truthy (Some [''you@example.org''])" "truthy (Some ''pw'')"
    by (simp_all add: truthy_def)
  from no_png_raises [OF e, where sndr = "Some ''me@example.org''"
      and rcpts = "Some [''you@example.org'']" and pwd = "Some ''pw''"] t e
  show ?thesis by simp
qed

text \<open>
  As C6 is written, with \<open>FileNotFoundError\<close> for every call on a directory without PNG
  files, it fails: the checks of sender, recipients and credential come first.
\<close>

theorem no_png_raises_counterexample:
  "filter fnmatch_png (listdir bare_world ''FIGS'') = [] \<and>
   send_images_via_email bare_world ''FIGS'' None (Some [''you@example.org''])
       ''GFS Forecast'' ''Good morning'' ''smtp.example.org'' 465 (Some ''pw'') ''PVU_Figures.zip'' [] =
     ([], Inl ValueError) \<and>
   ValueError \<noteq> FileNotFoundError"
  by (simp add: bare_world_def demo_world_def fnmatch_png_def send_images_via_email_def truthy_def)

text \<open>
  Claim C7, as amended. When \<open>send_images_via_email\<close> builds its archive, the archive
  has exactly one entry for each name of the image directory that matches \<open>*.png\<close>, in
  sorted order. A regular file is stored under its name alone (the directory is not part
  of it) with the bytes of the file; a matching entry that is itself a directory is stored
  under its name followed by a slash, with no data. So when all matching entries are
  regular files the entry names are exactly their names: for a directory with \<open>b.png\<close>,
  \<open>notes.txt\<close> and \<open>a.png\<close> the entries are \<open>a.png\<close> and \<open>b.png\<close>. This archive is the
  attachment of every message handed to the SMTP connection.
\<close>

theorem archive_holds_the_png_files:
  assumes "zip_images w (sorted_paths (glob_png w d)) = Inr archive"
  shows "list_all2
           (\<lambda>n e. file_at w \<lparr>parent = d, name = n\<rparr> = Inr Directory \<and> e = (n @ ''/'', []) \<or>
                  (\<exists>b. file_at w \<lparr>parent = d, name = n\<rparr> = Inr (Regular_file b) \<and> e = (n, b)))
           (sort (filter fnmatch_png (listdir w d))) archive \<and>
         length archive = length (filter fnmatch_png (listdir w d)) \<and>
         ((\<forall>n \<in> set (listdir w d). fnmatch_png n \<longrightarrow>
              (\<exists>b. file_at w \<lparr>parent = d, name = n\<rparr> = Inr (Regular_file b))) \<longrightarrow>
            map fst archive = sort (filter fnmatch_png (listdir w d)) \<and>
            set (map fst archive) = {n \<in> set (listdir w d). fnmatch_png n} \<and>
            (\<forall>n c. (n, c) \<in> set archive \<longrightarrow>
               file_at w \<lparr>parent = d, name = n\<rparr> = Inr (Regular_file c))) \<and>
         (send_images_via_email w d sndr rcpts subj bdy srv prt pwd zn lg = (lg @ evs, res) \<and>
            Smtp (Send_message m) ok \<in> set evs \<longrightarrow> attachment m = archive)"
proof -
  note E = png_archive_entries [OF assms]
  from list_all2_lengthD [OF E]
  have len: "length archive = length (filter fnmatch_png (listdir w d))" by simp
  have reg: "map fst archive = sort (filter fnmatch_png (listdir w d)) \<and>
            set (map fst archive) = {n \<in> set (listdir w d). fnmatch_png n} \<and>
            (\<forall>n c. (n, c) \<in> set archive \<longrightarrow>
               file_at w \<lparr>parent = d, name = n\<rparr> = Inr (Regular_file c))"
    if "\<forall>n \<in> set (listdir w d). fnmatch_png n \<longrightarrow>
              (\<exists>b. file_at w \<lparr>parent = d, name = n\<rparr> = Inr (Regular_file b))"
    using png_archive_regular [OF assms that] by auto
  have att: "attachment m = archive"
    if a: "send_images_via_email w d sndr rcpts subj bdy srv prt pwd zn lg = (lg @ evs, res) \<and>
      Smtp (Send_message m) ok \<in> set evs"
    using send_events [OF conjunct1 [OF a] conjunct2 [OF a]] assms by auto
  from E len reg att show ?thesis by blast
qed

theorem archive_holds_the_png_files_witness:
  "listdir mail_world ''FIGS'' = [''b.png'', ''notes.txt'', ''a.png''] \<and>
   zip_images mail_world (sorted_paths (glob_png mail_world ''FIGS'')) =
     Inr [(''a.png'', [137, 80, 78, 71]), (''b.png'', [137, 80, 78, 71])] \<and>
   (\<exists>evs res m.
      send_images_via_email mail_world ''FIGS'' (Some ''me@example.org'')
          (Some [''you@example.org'', ''ops@example.org''])
          ''GFS Forecast'' ''Good morning'' ''smtp.example.org'' 465 None ''PVU_Figures.zip'' [] =
        ([] @ evs, res) \<and>
      Smtp (Send_message m) True \<in> set evs \<and>
      map fst (attachment m) = [''a.png'', ''b.png''])"
proof -
  let ?a = "[(''a.png'', [137, 80, 78, 71 :: nat]), (''b.png'', [137, 80, 78, 71])]"
  let ?m = "\<lparr>msg_from = ''me@example.org'', msg_to = ''you@example.org, ops@example.org'',
           msg_subject = ''GFS Forecast'', msg_content = ''Good morning'',
           attachment_filename = ''PVU_Figures.zip'', attachment = ?a\<rparr>"
  let ?evs = "[Print (Sending 2 ''you@example.org, ops@example.org''),
       Smtp (Connect ''smtp.example.org'' 465) True,
       Smtp (Login ''me@example.org'' ''from-env'') True,
       Smtp (Send_message ?m) True,
       Print Email_sent]"
  have l: "listdir mail_world ''FIGS'' = [''b.png'', ''notes.txt'', ''a.png'']"
    by (simp add: mail_world_def demo_world_def)
  have z: "zip_images mail_world (sorted_paths (glob_png mail_world ''FIGS'')) = Inr ?a"
    by (simp add: mail_world_def demo_world_def glob_png_def sorted_paths_def fnmatch_png_def
        zf_write_def)
  have run: "send_images_via_email mail_world ''FIGS'' (Some ''me@example.org'')
          (Some [''you@example.org'', ''ops@example.org''])
          ''GFS Forecast'' ''Good morning'' ''smtp.example.org'' 465 None ''PVU_Figures.zip'' [] =
        ([] @ ?evs, Inr ())"
    using mail_world_run [of None] by (simp add: truthy_def)
  have mem: "Smtp (Send_message ?m) True \<in> set ?evs" by simp
  have reg: "\<forall>n \<in> set (listdir mail_world ''FIGS''). fnmatch_png n \<longrightarrow>
      (\<exists>b. file_at mail_world \<lparr>parent = ''FIGS'', name = n\<rparr> = Inr (Regular_file b))"
    by (simp add: mail_world_def demo_world_def fnmatch_png_def)
  have s: "sort (filter fnmatch_png [''b.png'', ''notes.txt'', ''a.png'']) = [''a.png'', ''b.png'']"
    by (simp add: fnmatch_png_def)
  from archive_holds_the_png_files [OF z, of "Some ''me@example.org''"
      "Some [''you@example.org'', ''ops@example.org'']" "''GFS Forecast''" "''Good morning''"
      "''smtp.example.org''" 465 None "''PVU_Figures.zip''" "[]" ?evs "Inr ()" ?m True] run mem reg
  have "attachment ?m = ?a"
    and "map fst ?a = sort (filter fnmatch_png (listdir mail_world ''FIGS''))"
    by blast+
  with l s have nm: "map fst (attachment ?m) = [''a.png'', ''b.png'']" by simp
  show ?thesis
  proof (intro conjI exI [of _ ?evs] exI [of _ "Inr ()"] exI [of _ ?m])
    show "listdir mail_world ''FIGS'' = [''b.png'', ''notes.txt'', ''a.png'']" by (rule l)
    show "zip_images mail_world (sorted_paths (glob_png mail_world ''FIGS'')) = Inr ?a" by (rule z)
    show "send_images_via_email mail_world ''FIGS'' (Some ''me@example.org'')
          (Some [''you@example.org'', ''ops@example.org''])
          ''GFS Forecast'' ''Good morning'' ''smtp.example.org'' 465 None ''PVU_Figures.zip'' [] =
        ([] @ ?evs, Inr ())" by (rule run)
    show "Smtp (Send_message ?m) True \<in> set ?evs" by (rule mem)
    show "map fst (attachment ?m) = [''a.png'', ''b.png'']" by (rule nm)
  qed
qed

text \<open>
  As C7 is written, for every image directory and with every entry named by the base
  filename, it fails: \<open>glob("*.png")\<close> also yields a subdirectory of that name, and
  \<open>ZipFile.write\<close> stores it as the entry \<open>d.png/\<close> with no data.
\<close>

theorem archive_holds_the_png_files_counterexample:
  "listdir subdir_world ''FIGS'' = [''d.png'', ''a.png''] \<and>
   file_at subdir_world \<lparr>parent = ''FIGS'', name = ''d.png''\<rparr> = Inr Directory \<and>
   send_images_via_email subdir_world ''FIGS'' (Some ''me@example.org'')
       (Some [''you@example.org'', ''ops@example.org''])
       ''GFS Forecast'' ''Good morning'' ''smtp.example.org'' 465 None ''PVU_Figures.zip'' [] =
     ([Print (Sending 2 ''you@example.org, ops@example.org''),
       Smtp (Connect ''smtp.example.org'' 465) True,
       Smtp (Login ''me@example.org'' ''from-env'') True,
       Smtp (Send_message
          \<lparr>msg_from = ''me@example.org'', msg_to = ''you@example.org, ops@example.org'',
           msg_subject = ''GFS Forecast'', msg_content = ''Good morning'',
           attachment_filename = ''PVU_Figures.zip'',
           attachment = [(''a.png'', [137, 80, 78, 71]), (''d.png/'', [])]\<rparr>) True,
       Print Email_sent], Inr ()) \<and>
   ''d.png/'' \<noteq> ''d.png''"
  by (simp add: subdir_world_def demo_world_def always_ok_def send_images_via_email_def truthy_def
      getenv_def glob_png_def sorted_paths_def fnmatch_png_def zf_write_def smtp_session_def
      smtp_do_def Let_def)

text \<open>
  Claim C8, as amended. The password of every SMTP login is the password argument
  whenever that argument is given and not empty, and the value of \<open>EMAIL_PASSWORD\<close>
  when the argument is \<open>None\<close> or the empty string; the user name is the sender.
\<close>

theorem explicit_password_first:
  assumes "send_images_via_email w d sndr rcpts subj bdy srv prt pwd zn lg = (lg @ evs, res)"
    and "Smtp (Login u p) ok \<in> set evs"
  shows "(\<forall>pw. pwd = Some pw \<and> pw \<noteq> [] \<longrightarrow> p = pw) \<and>
         (pwd = None \<or> pwd = Some [] \<longrightarrow> getenv w ''EMAIL_PASSWORD'' = Some p) \<and>
         sndr = Some u"
proof -
  from send_events [OF assms] obtain pw where
    pw: "(if truthy pwd then pwd else getenv w ''EMAIL_PASSWORD'') = Some pw"
    and s: "truthy sndr" and e: "u = the sndr" "p = pw"
    by auto
  from s e have "sndr = Some u" by (cases sndr) (simp_all add: truthy_def)
  with pw e show ?thesis by (auto simp: truthy_def split: if_splits)
qed

theorem explicit_password_first_witness:
  "(\<exists>evs res.
      send_images_via_email mail_world ''FIGS'' (Some ''me@example.org'')
          (Some [''you@example.org'', ''ops@example.org''])
          ''GFS Forecast'' ''Good morning'' ''smtp.example.org'' 465 (Some ''explicit'') ''PVU_Figures.zip'' [] =
        ([] @ evs, res) \<and>
      Smtp (Login ''me@example.org'' ''explicit'') True \<in> set evs) \<and>
   (\<exists>evs res.
      send_images_via_email mail_world ''FIGS'' (Some ''me@example.org'')
          (Some [''you@example.org'', ''ops@example.org''])
          ''GFS Forecast'' ''Good morning'' ''smtp.example.org'' 465 None ''PVU_Figures.zip'' [] =
        ([] @ evs, res) \<and>
      Smtp (Login ''me@example.org'' ''from-env'') True \<in> set evs) \<and>
   getenv mail_world ''EMAIL_PASSWORD'' = Some ''from-env''"
proof -
  let ?m = "\<lparr>msg_from = ''me@example.org'', msg_to = ''you@example.org, ops@example.org'',
           msg_subject = ''GFS Forecast'', msg_content = ''Good morning'',
           attachment_filename = ''PVU_Figures.zip'',
           attachment = [(''a.png'', [137, 80, 78, 71]), (''b.png'', [137, 80, 78, 71])]\<rparr>"
  let ?evs = "\<lambda>p. [Print (Sending 2 ''you@example.org, ops@example.org''),
       Smtp (Connect ''smtp.example.org'' 465) True,
       Smtp (Login ''me@example.org'' p) True,
       Smtp (Send_message ?m) True,
       Print Email_sent]"
  have r1: "send_images_via_email mail_world ''FIGS'' (Some ''me@example.org'')
          (Some [''you@example.org'', ''ops@example.org''])
          ''GFS Forecast'' ''Good morning'' ''smtp.example.org'' 465 (Some ''explicit'') ''PVU_Figures.zip'' [] =
        ([] @ ?evs ''explicit'', Inr ())"
    using mail_world_run [of "Some ''explicit''"] by (simp add: truthy_def)
  have r2: "send_images_via_email mail_world ''FIGS'' (Some ''me@example.org'')
          (Some [''you@example.org'', ''ops@example.org''])
          ''GFS Forecast'' ''Good morning'' ''smtp.example.org'' 465 None ''PVU_Figures.zip'' [] =
        ([] @ ?evs ''from-env'', Inr ())"
    using mail_world_run [of None] by (simp add: truthy_def)
  have m1: "Smtp (Login ''me@example.org'' ''explicit'') True \<in> set (?evs ''explicit'')"
    and m2: "Smtp (Login ''me@example.org'' ''from-env'') True \<in> set (?evs ''from-env'')"
    by simp_all
  from explicit_password_first [OF r2 m2]
  have g: "getenv mail_world ''EMAIL_PASSWORD'' = Some ''from-env''" by simp
  show ?thesis
  proof (intro conjI)
    show "\<exists>evs res.
      send_images_via_email mail_world ''FIGS'' (Some ''me@example.org'')
          (Some [''you@example.org'', ''ops@example.org''])
          ''GFS Forecast'' ''Good morning'' ''smtp.example.org'' 465 (Some ''explicit'') ''PVU_Figures.zip'' [] =
        ([] @ evs, res) \<and>
      Smtp (Login ''me@example.org'' ''explicit'') True \<in> set evs"
      by (intro exI [of _ "?evs ''explicit''"] exI [of _ "Inr ()"] conjI) (rule r1, rule m1)
    show "\<exists>evs res.
      send_images_via_email mail_world ''FIGS'' (Some ''me@example.org'')
          (Some [''you@example.org'', ''ops@example.org''])
          ''GFS Forecast'' ''Good morning'' ''smtp.example.org'' 465 None ''PVU_Figures.zip'' [] =
        ([] @ evs, res) \<and>
      Smtp (Login ''me@example.org'' ''from-env'') True \<in> set evs"
      by (intro exI [of _ "?evs ''from-env''"] exI [of _ "Inr ()"] conjI) (rule r2, rule m2)
    show "getenv mail_world ''EMAIL_PASSWORD'' = Some ''from-env''" by (rule g)
  qed
qed

text \<open>
  As C8 is written, with the argument used whenever one is supplied, it fails for the
  empty string: \<open>password or os.getenv("EMAIL_PASSWORD")\<close> then takes the environment's
  value.
\<close>

theorem explicit_password_first_counterexample:
  "send_images_via_email mail_world ''FIGS'' (Some ''me@example.org'')
       (Some [''you@example.org'', ''ops@example.org''])
       ''GFS Forecast'' ''Good morning'' ''smtp.example.org'' 465 (Some []) ''PVU_Figures.zip'' [] =
     ([Print (Sending 2 ''you@example.org, ops@example.org''),
       Smtp (Connect ''smtp.example.org'' 465) True,
       Smtp (Login ''me@example.org'' ''from-env'') True,
       Smtp (Send_message
          \<lparr>msg_from = ''me@example.org'', msg_to = ''you@example.org, ops@example.org'',
           msg_subject = ''GFS Forecast'', msg_content = ''Good morning'',
           attachment_filename = ''PVU_Figures.zip'',
           attachment = [(''a.png'', [137, 80, 78, 71]), (''b.png'', [137, 80, 78, 71])]\<rparr>) True,
       Print Email_sent], Inr ()) \<and>
   ''from-env'' \<noteq> []"
  using mail_world_run [of "Some []"] by (simp add: truthy_def)

subsection \<open>The orchestrator\<close>

lemma failure_is_last_append:
  assumes "failure_is_last e1 (Inr ())" and "failure_is_last e2 res"
  shows "failure_is_last (e1 @ e2) res"
  unfolding failure_is_last_def
proof (intro allI impI)
  fix i argv e r err
  assume a: "i < length (e1 @ e2) \<and> (e1 @ e2) ! i = Run argv e r \<and> run_error r = Some err"
  show "Suc i = length (e1 @ e2) \<and> res = Inl err"
  proof (cases "i < length e1")
    case True
    with a assms(1) show ?thesis by (auto simp: failure_is_last_def nth_append)
  next
    case False
    with a have "i - length e1 < length e2 \<and> e2 ! (i - length e1) = Run argv e r \<and>
      run_error r = Some err" by (auto simp: nth_append)
    with assms(2) have "Suc (i - length e1) = length e2 \<and> res = Inl err"
      unfolding failure_is_last_def by blast
    with False show ?thesis by auto
  qed
qed

lemma failure_is_last_no_run:
  "\<forall>ev \<in> set evs. \<forall>argv e r. ev \<noteq> Run argv e r \<Longrightarrow> failure_is_last evs res"
  unfolding failure_is_last_def by (metis nth_mem)

lemma subprocess_run_shape:
  "\<exists>evs. subprocess_run w argv e n lg = (lg @ evs, snd (subprocess_run w argv e n lg)) \<and>
         failure_is_last evs (snd (subprocess_run w argv e n lg))"
  by (auto simp: subprocess_run_def Let_def failure_is_last_def nth_Cons' split: option.splits)

lemma run_gfs_download_shape:
  "\<exists>evs. run_gfs_download w d py s ex h f lg =
           (lg @ evs, snd (run_gfs_download w d py s ex h f lg)) \<and>
         failure_is_last evs (snd (run_gfs_download w d py s ex h f lg))"
proof -
  let ?r = "subprocess_run w [py, s] (download_env w d ex) Download_finished (lg @ [Mkdir d])"
  from subprocess_run_shape [of w "[py, s]" "download_env w d ex" Download_finished "lg @ [Mkdir d]"]
  obtain evs where e: "?r = ((lg @ [Mkdir d]) @ evs, snd ?r)" and l: "failure_is_last evs (snd ?r)"
    by blast
  have "failure_is_last [Mkdir d] (Inr ())" by (rule failure_is_last_no_run) simp
  from failure_is_last_append [OF this l] e
  have run: "\<exists>evs. ?r = (lg @ evs, snd ?r) \<and> failure_is_last evs (snd ?r)" by auto
  have "run_gfs_download w d py s ex h f lg = ?r \<or>
        (\<exists>err. run_gfs_download w d py s ex h f lg = (lg @ [Mkdir d], Inl err)) \<or>
        run_gfs_download w d py s ex h f lg = (lg @ [Mkdir d, Print Up_to_date], Inr ())"
  proof (cases f)
    case True
    then show ?thesis by (simp add: run_gfs_download_def)
  next
    case False
    show ?thesis
    proof (cases "should_skip_download w d h")
      case (Inl err)
      with False show ?thesis by (simp add: run_gfs_download_def)
    next
      case (Inr skip)
      with False show ?thesis by (cases skip) (simp_all add: run_gfs_download_def)
    qed
  qed
  then consider (download) "run_gfs_download w d py s ex h f lg = ?r"
    | (raised) err where "run_gfs_download w d py s ex h f lg = (lg @ [Mkdir d], Inl err)"
    | (skipped) "run_gfs_download w d py s ex h f lg = (lg @ [Mkdir d, Print Up_to_date], Inr ())"
    by blast
  then show ?thesis
  proof cases
    case download
    with run show ?thesis by simp
  next
    case raised
    moreover have "failure_is_last [Mkdir d] (Inl err)" by (rule failure_is_last_no_run) simp
    ultimately show ?thesis by simp
  next
    case skipped
    moreover have "failure_is_last [Mkdir d, Print Up_to_date] (Inr ())"
      by (rule failure_is_last_no_run) simp
    ultimately show ?thesis by simp
  qed
qed

lemma run_forecast_plot_shape:
  "\<exists>evs. run_forecast_plot w i out py s ex lg =
           (lg @ evs, snd (run_forecast_plot w i out py s ex lg)) \<and>
         failure_is_last evs (snd (run_forecast_plot w i out py s ex lg))"
proof -
  let ?r = "subprocess_run w [py, s] (plot_env w i out ex) Figures_produced
              (lg @ [Print Creating_figures, Mkdir out])"
  have eq: "run_forecast_plot w i out py s ex lg = ?r"
    by (simp add: run_forecast_plot_def)
  from subprocess_run_shape [of w "[py, s]" "plot_env w i out ex" Figures_produced
      "lg @ [Print Creating_figures, Mkdir out]"]
  obtain evs where e: "?r = ((lg @ [Print Creating_figures, Mkdir out]) @ evs, snd ?r)"
    and l: "failure_is_last evs (snd ?r)"
    by blast
  have "failure_is_last [Print Creating_figures, Mkdir out] (Inr ())"
    by (rule failure_is_last_no_run) simp
  from failure_is_last_append [OF this l] e eq show ?thesis by auto
qed

lemma send_shape:
  "\<exists>evs. send_images_via_email w d sndr rcpts subj bdy srv prt pwd zn lg =
           (lg @ evs, snd (send_images_via_email w d sndr rcpts subj bdy srv prt pwd zn lg)) \<and>
         (\<forall>ev \<in> set evs. \<forall>argv e r. ev \<noteq> Run argv e r)"
proof -
  let ?r = "send_images_via_email w d sndr rcpts subj bdy srv prt pwd zn lg"
  have "\<exists>evs. fst ?r = lg @ evs"
    by (auto simp: send_images_via_email_def smtp_session_def smtp_do_def Let_def
        split: option.splits sum.splits)
  then obtain evs where e: "?r = (lg @ evs, snd ?r)" by (metis prod.collapse)
  from send_events [OF e] have "\<forall>ev \<in> set evs. \<forall>argv e r. ev \<noteq> Run argv e r" by blast
  with e show ?thesis by blast
qed

lemma parse_env_bad:
  "\<exists>kv \<in> set kvs. CHR ''='' \<notin> set kv \<Longrightarrow> parse_env kvs acc = Inl ValueError"
  by (induction kvs arbitrary: acc) (auto simp: Let_def)

lemma run_pipeline_shape:
  "\<exists>evs. run_pipeline w a lg = (lg @ evs, snd (run_pipeline w a lg)) \<and>
         failure_is_last evs (snd (run_pipeline w a lg))"
proof (cases "if truthy (env a) then parse_env (the (env a)) [] else Inr []")
  case (Inl e)
  then have "run_pipeline w a lg = (lg @ [], Inl e)" by (simp add: run_pipeline_def)
  moreover have "failure_is_last [] (Inl e)" by (simp add: failure_is_last_def)
  ultimately show ?thesis by (metis snd_conv)
next
  case (Inr extra)
  let ?d = "run_gfs_download w (data_dir a) (sys_executable w) (gfs_script a)
                  (Some extra) (max_age_hours a) (force_download a) lg"
  from run_gfs_download_shape obtain e1 where d: "?d = (lg @ e1, snd ?d)"
    and l1: "failure_is_last e1 (snd ?d)" by blast
  show ?thesis
  proof (cases "snd ?d")
    case (Inl err)
    with d Inr have "run_pipeline w a lg = (lg @ e1, Inl err)"
      by (simp add: run_pipeline_def)
    with l1 Inl show ?thesis by simp
  next
    case ok1: (Inr u1)
    let ?p = "run_forecast_plot w (data_dir a) (fig_dir a) (sys_executable w)
                       (forecast_script a) (Some extra) (lg @ e1)"
    from run_forecast_plot_shape obtain e2 where p: "?p = ((lg @ e1) @ e2, snd ?p)"
      and l2: "failure_is_last e2 (snd ?p)" by blast
    from l1 ok1 have l1': "failure_is_last e1 (Inr ())" by simp
    show ?thesis
    proof (cases "snd ?p")
      case (Inl err)
      with d ok1 p Inr have "run_pipeline w a lg = (lg @ e1 @ e2, Inl err)"
        by (simp add: run_pipeline_def)
      with failure_is_last_append [OF l1' l2] Inl show ?thesis by simp
    next
      case ok2: (Inr u2)
      from l2 ok2 have l2': "failure_is_last e2 (Inr ())" by simp
      note l12 = failure_is_last_append [OF l1' l2']
      let ?m = "if send_email a
                then send_images_via_email w (fig_dir a) (sender a) (recipients a)
                       (subject a) (body a) (smtp_server a) (port a) (password a)
                       (zip_name a) (lg @ e1 @ e2)
                else (lg @ e1 @ e2, Inr ())"
      have "\<exists>e3. ?m = ((lg @ e1 @ e2) @ e3, snd ?m) \<and> (\<forall>ev \<in> set e3. \<forall>argv e r. ev \<noteq> Run argv e r)"
      proof (cases "send_email a")
        case True
        with send_shape [of w "fig_dir a" "sender a" "recipients a" "subject a" "body a"
            "smtp_server a" "port a" "password a" "zip_name a" "lg @ e1 @ e2"]
        show ?thesis by simp
      next
        case False
        then have "?m = ((lg @ e1 @ e2) @ [], snd ?m) \<and>
            (\<forall>ev \<in> set []. \<forall>argv e r. ev \<noteq> Run argv e r)" by simp
        then show ?thesis by blast
      qed
      then obtain e3 where m: "?m = ((lg @ e1 @ e2) @ e3, snd ?m)"
        and n3: "\<forall>ev \<in> set e3. \<forall>argv e r. ev \<noteq> Run argv e r" by blast
      show ?thesis
      proof (cases "snd ?m")
        case (Inl err)
        with m have "?m = (lg @ e1 @ e2 @ e3, Inl err)" by simp
        with d ok1 p ok2 Inr have "run_pipeline w a lg = (lg @ (e1 @ e2) @ e3, Inl err)"
          by (simp add: run_pipeline_def)
        moreover from failure_is_last_append [OF l12 failure_is_last_no_run [OF n3]]
        have "failure_is_last ((e1 @ e2) @ e3) (Inl err)" .
        ultimately show ?thesis by (metis snd_conv)
      next
        case ok3: (Inr u3)
        with m have "?m = (lg @ e1 @ e2 @ e3, Inr u3)" by simp
        with d ok1 p ok2 Inr
        have "run_pipeline w a lg = (lg @ (e1 @ e2) @ (e3 @ [Print Pipeline_finished]), Inr ())"
          by (simp add: run_pipeline_def)
        moreover have "\<forall>ev \<in> set (e3 @ [Print Pipeline_finished]). \<forall>argv e r. ev \<noteq> Run argv e r"
          using n3 by auto
        from failure_is_last_append [OF l12 failure_is_last_no_run [OF this]]
        have "failure_is_last ((e1 @ e2) @ (e3 @ [Print Pipeline_finished])) (Inr ())" .
        ultimately show ?thesis by (metis snd_conv)
      qed
    qed
  qed
qed

text \<open>
  Claim C3. In the events of a run of \<open>run_pipeline\<close>, a subprocess call that exits
  non-zero or fails to launch is the last event, and its error is the result of the run.
  So after a failed download nothing of the render stage happens (no notice, no
  directory creation, no subprocess), after a failed render nothing of the e-mail stage
  happens, and the caller receives the error of the first failure.
\<close>

theorem stage_failure_aborts_pipeline:
  assumes "run_pipeline w a lg = (lg @ evs, res)"
    and "i < length evs" and "evs ! i = Run argv e r" and "run_error r = Some err"
  shows "Suc i = length evs \<and> res = Inl err"
proof -
  from run_pipeline_shape [of w a lg] assms(1)
  have "failure_is_last evs res" by auto
  with assms(2-4) show ?thesis unfolding failure_is_last_def by blast
qed

theorem stage_failure_aborts_pipeline_witness:
  "run_pipeline failing_download_world (demo_args None True) [] =
     ([] @ [Mkdir ''DATA'',
            Run [''python3'', ''GFS.py''] [(''DATA_DIR'', ''/srv/DATA'')] (Exited 1)],
      Inl (CalledProcessError 1)) \<and>
   run_pipeline failing_render_world (demo_args None True) [] =
     ([] @ [Mkdir ''DATA'',
            Run [''python3'', ''GFS.py''] [(''DATA_DIR'', ''/srv/DATA'')] (Exited 0),
            Print Download_finished, Print Creating_figures, Mkdir ''FIGS'',
            Run [''python3'', ''forecast.py'']
              [(''INPUT_DIR'', ''/srv/DATA''), (''OUTPUT_DIR'', ''/srv/FIGS'')] LaunchFailed],
      Inl OSError)"
proof -
  let ?e1 = "[Mkdir ''DATA'',
            Run [''python3'', ''GFS.py''] [(''DATA_DIR'', ''/srv/DATA'')] (Exited 1)]"
  let ?e2 = "[Mkdir ''DATA'',
            Run [''python3'', ''GFS.py''] [(''DATA_DIR'', ''/srv/DATA'')] (Exited 0),
            Print Download_finished, Print Creating_figures, Mkdir ''FIGS'',
            Run [''python3'', ''forecast.py'']
              [(''INPUT_DIR'', ''/srv/DATA''), (''OUTPUT_DIR'', ''/srv/FIGS'')] LaunchFailed]"
  have ns: "\<not> is_grib ''notes.txt''" by (simp add: is_grib_def lower_def char_lower_def)
  have "fst (run_pipeline failing_download_world (demo_args None True) []) = [] @ ?e1"
    using ns
    by (simp add: failing_download_world_def demo_world_def demo_args_def notes_file_def
        download_fails_def run_pipeline_def truthy_def run_gfs_download_def
        should_skip_download_def latest_mtime_def subprocess_run_def run_error_def
        download_env_def Let_def)
  then obtain res1 where
    r1: "run_pipeline failing_download_world (demo_args None True) [] = ([] @ ?e1, res1)"
    by (metis prod.collapse)
  have "fst (run_pipeline failing_render_world (demo_args None True) []) = [] @ ?e2"
    using ns
    by (simp add: failing_render_world_def demo_world_def demo_args_def notes_file_def
        render_fails_def run_pipeline_def truthy_def run_gfs_download_def
        should_skip_download_def latest_mtime_def subprocess_run_def run_error_def
        download_env_def run_forecast_plot_def plot_env_def Let_def)
  then obtain res2 where
    r2: "run_pipeline failing_render_world (demo_args None True) [] = ([] @ ?e2, res2)"
    by (metis prod.collapse)
  have "res1 = Inl (CalledProcessError 1)"
    using stage_failure_aborts_pipeline [OF r1, of 1 "[''python3'', ''GFS.py'']"
        "[(''DATA_DIR'', ''/srv/DATA'')]" "Exited 1" "CalledProcessError 1"]
    by (simp add: run_error_def)
  moreover have "res2 = Inl OSError"
    using stage_failure_aborts_pipeline [OF r2, of 5 "[''python3'', ''forecast.py'']"
        "[(''INPUT_DIR'', ''/srv/DATA''), (''OUTPUT_DIR'', ''/srv/FIGS'')]" LaunchFailed OSError]
    by (simp add: run_error_def)
  ultimately show ?thesis using r1 r2 by simp
qed

text \<open>
  Claim C4. If some entry of \<open>args.env\<close> contains no \<open>=\<close>, \<open>run_pipeline\<close> raises
  \<open>ValueError\<close> with the log unchanged: no directory is created, no subprocess is called,
  nothing is printed and no mail is sent.
\<close>

theorem malformed_env_raises_first:
  assumes "env a = Some kvs" and "\<exists>kv \<in> set kvs. CHR ''='' \<notin> set kv"
  shows "run_pipeline w a lg = (lg, Inl ValueError)"
proof -
  from assms(2) have "kvs \<noteq> []" by auto
  with assms(1) have "truthy (env a)" by (simp add: truthy_def)
  with assms(1) parse_env_bad [OF assms(2), of "[]"] show ?thesis
    by (simp add: run_pipeline_def)
qed

theorem malformed_env_raises_first_witness:
  "env (demo_args (Some [''TZ=UTC'', ''DEBUG'']) True) = Some [''TZ=UTC'', ''DEBUG''] \<and>
   CHR ''='' \<notin> set ''DEBUG'' \<and>
   run_pipeline mail_world (demo_args (Some [''TZ=UTC'', ''DEBUG'']) True) [] = ([], Inl ValueError)"
proof -
  have e: "env (demo_args (Some [''TZ=UTC'', ''DEBUG'']) True) = Some [''TZ=UTC'', ''DEBUG'']"
    by (simp add: demo_args_def)
  have b: "\<exists>kv \<in> set [''TZ=UTC'', ''DEBUG'']. CHR ''='' \<notin> set kv" by simp
  from malformed_env_raises_first [OF e b, of mail_world "[]"] e show ?thesis by simp
qed

end
